theory Spec2Isabelle
  imports Main
begin

section \<open>Data model of the Typo engine (src/typo/typo.js)\<close>

text \<open>
  Strings are lists of 8-bit code units: the dictionary files are read with the
  charset ISO8859-1, one code unit per character. A JavaScript object used as a
  dictionary is the map of its own properties. The reads \<^verbatim>\<open>this.dictionaryTable[word]\<close>
  of the word checker also see what the table inherits from \<^verbatim>\<open>Object.prototype\<close>; the
  writes of the dictionary builder are modelled on the own properties, for word lists
  without the words \<^verbatim>\<open>hasOwnProperty\<close> and \<^verbatim>\<open>__proto__\<close>. A compiled
  \<^verbatim>\<open>RegExp\<close> is represented by what the code uses of it: the predicate
  \<^verbatim>\<open>word.match(re)\<close> or the function \<^verbatim>\<open>word.replace(re, '')\<close>.
  Every \<^verbatim>\<open>throw\<close> of the source, and every exception the runtime raises in it, is a
  value \<open>Inl e\<close> of the result.

  An engine is the record of its fields, as the constructor leaves them or as \<^verbatim>\<open>load\<close>
  restores them. The model covers the flag codec, the rule applier, the dictionary builder
  from the split lines on, the word checker and the suggestion engine; reading the files,
  stripping their comments, parsing the affix file and compiling the compound rules are
  outside it.
\<close>

datatype error =
    NotLoaded        \<comment> \<open>\<^verbatim>\<open>throw "Dictionary not loaded."\<close>\<close>
  | TypeError        \<comment> \<open>a property read or a call on \<^verbatim>\<open>null\<close> or \<^verbatim>\<open>undefined\<close>\<close>
  | ReferenceError   \<comment> \<open>an identifier that is declared nowhere\<close>
  | RangeError       \<comment> \<open>the call stack is exhausted\<close>

definition bindE :: "error + 'a \<Rightarrow> ('a \<Rightarrow> error + 'b) \<Rightarrow> error + 'b" where
  "bindE m f = (case m of Inl e \<Rightarrow> Inl e | Inr x \<Rightarrow> f x)"

text \<open>The value of a directive in \<^verbatim>\<open>this.flags\<close>: \<^verbatim>\<open>definitionParts[1]\<close>, a string, or
  \<^verbatim>\<open>undefined\<close> when the directive line has one token only.\<close>

datatype flagval = Undefined | Str string

type_synonym flags = "string \<rightharpoonup> flagval"

text \<open>A value of the dictionary table: \<^verbatim>\<open>null\<close>, or an array of rule-code arrays.\<close>

datatype entry = Null | Codes "string list list"

type_synonym table = "string \<rightharpoonup> entry"

datatype ruleType = PFX | SFX

record affixEntry =
  add :: string
  continuationClasses :: "string list option"
  matchRe :: "(string \<Rightarrow> bool) option"
  removeRe :: "(string \<Rightarrow> string) option"

record affixRule =
  rtype :: ruleType
  combineable :: bool
  entries :: "affixEntry list"

record memo =
  suggestions :: "string list"
  limit :: int

record typo =
  rules :: "string \<rightharpoonup> affixRule"
  dictionaryTable :: table
  compoundRules :: "(string \<Rightarrow> bool) list"
  compoundRuleCodes :: "string \<rightharpoonup> string list"
  replacementTable :: "(string \<times> string) list"
  flags :: flags
  memoized :: "string \<rightharpoonup> memo"
  loaded :: bool
  alphabet :: string

section \<open>Strings\<close>

text \<open>The code units below 256 that \<^verbatim>\<open>\s\<close> and \<^verbatim>\<open>trim\<close> treat as white space: tab, line feed,
  vertical tab, form feed, carriage return, space and the no-break space.\<close>

definition is_space :: "char \<Rightarrow> bool" where
  "is_space c = (c \<in> set [CHR 0x09, CHR 0x0A, CHR 0x0B, CHR 0x0C, CHR 0x0D, CHR 0x20, CHR 0xA0])"

text \<open>\<^verbatim>\<open>w.replace(/^\s\s*/, '').replace(/\s\s*$/, '')\<close> and \<^verbatim>\<open>w.trim()\<close>.\<close>

definition trim :: "string \<Rightarrow> string" where
  "trim w = rev (dropWhile is_space (rev (dropWhile is_space w)))"

text \<open>Case mapping is modelled on the letters A to Z; every other code unit is mapped to
  itself.\<close>

definition lower_letters :: string where
  "lower_letters = ''abcdefghijklmnopqrstuvwxyz''"

definition upper_letters :: string where
  "upper_letters = ''ABCDEFGHIJKLMNOPQRSTUVWXYZ''"

definition upper_char :: "char \<Rightarrow> char" where
  "upper_char c = (case map_of (zip lower_letters upper_letters) c of Some u \<Rightarrow> u | None \<Rightarrow> c)"

definition lower_char :: "char \<Rightarrow> char" where
  "lower_char c = (case map_of (zip upper_letters lower_letters) c of Some l \<Rightarrow> l | None \<Rightarrow> c)"

definition toUpperCase :: "string \<Rightarrow> string" where
  "toUpperCase w = map upper_char w"

definition toLowerCase :: "string \<Rightarrow> string" where
  "toLowerCase w = map lower_char w"

text \<open>\<^verbatim>\<open>line.split('/')\<close>: the pieces between the separators; the empty string gives
  one empty piece.\<close>

fun split_on :: "char \<Rightarrow> string \<Rightarrow> string list" where
  "split_on sep [] = [[]]"
| "split_on sep (c # cs) =
     (if c = sep then [] # split_on sep cs
      else (case split_on sep cs of [] \<Rightarrow> [[c]] | p # ps \<Rightarrow> (c # p) # ps))"

text \<open>\<^verbatim>\<open>word.indexOf(pat)\<close>: the first position where \<open>pat\<close> occurs, if any.\<close>

fun indexOf :: "string \<Rightarrow> string \<Rightarrow> nat option" where
  "indexOf [] pat = (if pat = [] then Some 0 else None)"
| "indexOf (c # cs) pat =
     (if take (length pat) (c # cs) = pat then Some 0
      else map_option Suc (indexOf cs pat))"

text \<open>The replacement text of \<^verbatim>\<open>word.replace(pat, rep)\<close> for a string pattern: \<^verbatim>\<open>$$\<close>,
  \<^verbatim>\<open>$&\<close>, the text before (\<^verbatim>\<open>$`\<close>) and the text after (\<^verbatim>\<open>$'\<close>) the match are
  expanded; a string pattern has no capture groups, so every other \<^verbatim>\<open>$\<close> stands for
  itself.\<close>

fun GetSubstitution :: "string \<Rightarrow> string \<Rightarrow> string \<Rightarrow> string \<Rightarrow> string" where
  "GetSubstitution matched before after [] = []"
| "GetSubstitution matched before after [c] = [c]"
| "GetSubstitution matched before after (c # d # r) =
     (if c = CHR ''$'' \<and> d = CHR ''$'' then CHR ''$'' # GetSubstitution matched before after r
      else if c = CHR ''$'' \<and> d = CHR ''&'' then matched @ GetSubstitution matched before after r
      else if c = CHR ''$'' \<and> d = CHR 0x60 then before @ GetSubstitution matched before after r
      else if c = CHR ''$'' \<and> d = CHR 0x27 then after @ GetSubstitution matched before after r
      else c # GetSubstitution matched before after (d # r))"

text \<open>\<^verbatim>\<open>word.replace(pat, rep)\<close> with a string pattern: the first occurrence only.\<close>

definition replace_str :: "string \<Rightarrow> string \<Rightarrow> string \<Rightarrow> string" where
  "replace_str word pat rep =
     (case indexOf word pat of
        None \<Rightarrow> word
      | Some i \<Rightarrow>
          (let before = take i word; after = drop (i + length pat) word
           in before @ GetSubstitution pat before after rep @ after))"


section \<open>Flag codec\<close>

text \<open>\<^verbatim>\<open>textCodes.substr(i, 2)\<close> for \<open>i = 0, 2, 4, ...\<close>: the last piece of a string of odd
  length has one code unit.\<close>

fun pairs :: "string \<Rightarrow> string list" where
  "pairs [] = []"
| "pairs [a] = [[a]]"
| "pairs (a # b # r) = [a, b] # pairs r"

text \<open>\<^verbatim>\<open>textCodes.split('')\<close>, and \<^verbatim>\<open>Array.from(textCodes)\<close> on code units below 256.\<close>

definition split_chars :: "string \<Rightarrow> string list" where
  "split_chars t = map (\<lambda>c. [c]) t"

text \<open>\<^verbatim>\<open>parseRuleCodes\<close>. The argument is \<open>None\<close> for \<^verbatim>\<open>undefined\<close> (an affix entry
  with no \<^verbatim>\<open>/\<close>). In the \<^verbatim>\<open>num\<close> branch the source reads \<^verbatim>\<open>textCode\<close>, which is
  declared nowhere (the parameter is \<^verbatim>\<open>textCodes\<close>): the read raises.\<close>

definition parseRuleCodes :: "flags \<Rightarrow> string option \<Rightarrow> error + string list" where
  "parseRuleCodes fl textCodes =
     (case textCodes of
        None \<Rightarrow> Inr []
      | Some t \<Rightarrow>
          if t = [] then Inr []
          else if ''FLAG'' \<notin> dom fl then Inr (split_chars t)
          else if fl ''FLAG'' = Some (Str ''long'') then Inr (pairs t)
          else if fl ''FLAG'' = Some (Str ''num'') then Inl ReferenceError
          else if fl ''FLAG'' = Some (Str ''UTF-8'') then Inr (split_chars t)
          else Inr (split_chars t))"

section \<open>Dictionary builder\<close>

text \<open>\<^verbatim>\<open>typeof\<close> of a table value: \<^verbatim>\<open>typeof null\<close> and \<^verbatim>\<open>typeof []\<close> are both
  \<^verbatim>\<open>'object'\<close>; a missing property reads as \<^verbatim>\<open>undefined\<close>.\<close>

definition typeof :: "entry option \<Rightarrow> string" where
  "typeof v = (case v of None \<Rightarrow> ''undefined'' | Some Null \<Rightarrow> ''object'' | Some (Codes cs) \<Rightarrow> ''object'')"

text \<open>\<^verbatim>\<open>dictionaryTable[word].push(rules)\<close>: a property read on \<^verbatim>\<open>null\<close> or
  \<^verbatim>\<open>undefined\<close> raises a TypeError.\<close>

definition push :: "table \<Rightarrow> string \<Rightarrow> string list \<Rightarrow> error + table" where
  "push tbl word rs =
     (case tbl word of
        None \<Rightarrow> Inl TypeError
      | Some Null \<Rightarrow> Inl TypeError
      | Some (Codes cs) \<Rightarrow> Inr (tbl(word \<mapsto> Codes (cs @ [rs]))))"

text \<open>\<^verbatim>\<open>addWord\<close>, the closure of \<^verbatim>\<open>parseDIC\<close> over its local \<^verbatim>\<open>dictionaryTable\<close>.\<close>

definition addWord :: "table \<Rightarrow> string \<Rightarrow> string list \<Rightarrow> error + table" where
  "addWord tbl word rs =
     (let tbl1 = (if word \<notin> dom tbl then tbl(word \<mapsto> Null) else tbl) in
      if length rs > 0 then
        (let tbl2 = (if word \<notin> dom tbl1 \<or> typeof (tbl1 word) \<noteq> ''object''
                     then tbl1(word \<mapsto> Codes []) else tbl1)
         in push tbl2 word rs)
      else Inr tbl1)"


section \<open>Rule applier\<close>

text \<open>\<^verbatim>\<open>applyRule\<close> calls itself through the continuation classes, and nothing in the
  source bounds the depth: rules that name each other recurse until the call stack is
  exhausted. The first argument is the depth the stack allows.\<close>

fun continuations ::
  "(string \<Rightarrow> affixRule \<Rightarrow> error + string list) \<Rightarrow> (string \<rightharpoonup> affixRule) \<Rightarrow>
   string \<Rightarrow> string list \<Rightarrow> string list \<Rightarrow> error + string list" where
  "continuations rec rs newWord newWords [] = Inr newWords"
| "continuations rec rs newWord newWords (cc # ccs) =
     (case rs cc of
        None \<Rightarrow> continuations rec rs newWord newWords ccs
      | Some continuationRule \<Rightarrow>
          bindE (rec newWord continuationRule)
            (\<lambda>ws. continuations rec rs newWord (newWords @ ws) ccs))"

fun apply_entries ::
  "(string \<Rightarrow> affixRule \<Rightarrow> error + string list) \<Rightarrow> (string \<rightharpoonup> affixRule) \<Rightarrow>
   string \<Rightarrow> ruleType \<Rightarrow> string list \<Rightarrow> affixEntry list \<Rightarrow> error + string list" where
  "apply_entries rec rs word ty newWords [] = Inr newWords"
| "apply_entries rec rs word ty newWords (entry # es) =
     (if (case matchRe entry of None \<Rightarrow> True | Some m \<Rightarrow> m word) then
        (let w1 = (case removeRe entry of None \<Rightarrow> word | Some r \<Rightarrow> r word);
             newWord = (if ty = SFX then w1 @ add entry else add entry @ w1)
         in bindE
              (case continuationClasses entry of
                 None \<Rightarrow> Inr (newWords @ [newWord])
               | Some ccs \<Rightarrow> continuations rec rs newWord (newWords @ [newWord]) ccs)
              (\<lambda>nw. apply_entries rec rs word ty nw es))
      else apply_entries rec rs word ty newWords es)"

fun applyRule ::
  "nat \<Rightarrow> (string \<rightharpoonup> affixRule) \<Rightarrow> string \<Rightarrow> affixRule \<Rightarrow> error + string list" where
  "applyRule 0 rs word rule = Inl RangeError"
| "applyRule (Suc depth) rs word rule =
     apply_entries (applyRule depth rs) rs word (rtype rule) [] (entries rule)"

section \<open>Dictionary builder: the loop over the lines\<close>

text \<open>\<^verbatim>\<open>line.split('/', 2)\<close>: the first two pieces; \<^verbatim>\<open>parts[1]\<close> exists when the line has
  a \<^verbatim>\<open>/\<close>.\<close>

definition split2 :: "string \<Rightarrow> string \<times> string option" where
  "split2 line =
     (case split_on CHR ''/'' line of
        [] \<Rightarrow> ([], None)
      | [w] \<Rightarrow> (w, None)
      | w # c # _ \<Rightarrow> (w, Some c))"

text \<open>\<^verbatim>\<open>codes.indexOf(v) != -1\<close> for the value of a directive: strict equality, so
  \<^verbatim>\<open>undefined\<close> is found in no array of strings.\<close>

definition has_code :: "string list \<Rightarrow> flagval option \<Rightarrow> bool" where
  "has_code codes v = (case v of Some (Str x) \<Rightarrow> x \<in> set codes | _ \<Rightarrow> False)"

text \<open>The loop over \<^verbatim>\<open>otherNewWords\<close>.\<close>

fun addWord_each :: "table \<Rightarrow> string list \<Rightarrow> error + table" where
  "addWord_each tbl [] = Inr tbl"
| "addWord_each tbl (w # ws) = bindE (addWord tbl w []) (\<lambda>tbl'. addWord_each tbl' ws)"

text \<open>The loop over \<open>k\<close>: the codes after \<open>j\<close>.\<close>

fun combine_later ::
  "nat \<Rightarrow> (string \<rightharpoonup> affixRule) \<Rightarrow> affixRule \<Rightarrow> string \<Rightarrow> table \<Rightarrow> string list \<Rightarrow>
   error + table" where
  "combine_later depth rs rule newWord tbl [] = Inr tbl"
| "combine_later depth rs rule newWord tbl (combineCode # later) =
     bindE
       (case rs combineCode of
          None \<Rightarrow> Inr tbl
        | Some combineRule \<Rightarrow>
            if combineable combineRule \<and> rtype rule \<noteq> rtype combineRule then
              bindE (applyRule depth rs newWord combineRule) (addWord_each tbl)
            else Inr tbl)
       (\<lambda>tbl'. combine_later depth rs rule newWord tbl' later)"

text \<open>The loop over \<^verbatim>\<open>newWords\<close>.\<close>

fun add_newWords ::
  "nat \<Rightarrow> (string \<rightharpoonup> affixRule) \<Rightarrow> affixRule \<Rightarrow> string list \<Rightarrow> table \<Rightarrow> string list \<Rightarrow>
   error + table" where
  "add_newWords depth rs rule later tbl [] = Inr tbl"
| "add_newWords depth rs rule later tbl (newWord # others) =
     bindE (addWord tbl newWord [])
       (\<lambda>tbl1. bindE
          (if combineable rule then combine_later depth rs rule newWord tbl1 later
           else Inr tbl1)
          (\<lambda>tbl2. add_newWords depth rs rule later tbl2 others))"

text \<open>The loop over \<open>j\<close>: the codes of the line.\<close>

fun apply_codes ::
  "nat \<Rightarrow> (string \<rightharpoonup> affixRule) \<Rightarrow> string \<Rightarrow> table \<times> (string \<rightharpoonup> string list) \<Rightarrow>
   string list \<Rightarrow> error + table \<times> (string \<rightharpoonup> string list)" where
  "apply_codes depth rs word (tbl, crc) [] = Inr (tbl, crc)"
| "apply_codes depth rs word (tbl, crc) (code # later) =
     bindE
       (case rs code of
          None \<Rightarrow> Inr tbl
        | Some rule \<Rightarrow>
            bindE (applyRule depth rs word rule) (add_newWords depth rs rule later tbl))
       (\<lambda>tbl'.
          apply_codes depth rs word
            (tbl', (case crc code of None \<Rightarrow> crc | Some ws \<Rightarrow> crc(code \<mapsto> ws @ [word])))
            later)"

text \<open>The body of the loop over the lines.\<close>

definition parseDIC_line ::
  "nat \<Rightarrow> flags \<Rightarrow> (string \<rightharpoonup> affixRule) \<Rightarrow> table \<times> (string \<rightharpoonup> string list) \<Rightarrow>
   string \<Rightarrow> error + table \<times> (string \<rightharpoonup> string list)" where
  "parseDIC_line depth fl rs st line =
     (case split2 line of
        (word, None) \<Rightarrow> bindE (addWord (fst st) (trim word) []) (\<lambda>tbl1. Inr (tbl1, snd st))
      | (word, Some codes) \<Rightarrow>
          bindE (parseRuleCodes fl (Some codes))
            (\<lambda>ruleCodesArray.
               bindE
                 (if ''NEEDAFFIX'' \<notin> dom fl \<or> \<not> has_code ruleCodesArray (fl ''NEEDAFFIX'')
                  then addWord (fst st) word ruleCodesArray
                  else Inr (fst st))
                 (\<lambda>tbl1. apply_codes depth rs word (tbl1, snd st) ruleCodesArray)))"

fun parseDIC_lines ::
  "nat \<Rightarrow> flags \<Rightarrow> (string \<rightharpoonup> affixRule) \<Rightarrow> table \<times> (string \<rightharpoonup> string list) \<Rightarrow>
   string list \<Rightarrow> error + table \<times> (string \<rightharpoonup> string list)" where
  "parseDIC_lines depth fl rs st [] = Inr st"
| "parseDIC_lines depth fl rs st (line # ls) =
     bindE (parseDIC_line depth fl rs st line) (\<lambda>st'. parseDIC_lines depth fl rs st' ls)"

text \<open>\<^verbatim>\<open>parseDIC\<close>, from the split lines on: the table starts empty and the first line (the
  word count) is skipped. The result is the table and \<^verbatim>\<open>this.compoundRuleCodes\<close>.\<close>

definition parseDIC ::
  "nat \<Rightarrow> flags \<Rightarrow> (string \<rightharpoonup> affixRule) \<Rightarrow> (string \<rightharpoonup> string list) \<Rightarrow> string list \<Rightarrow>
   error + table \<times> (string \<rightharpoonup> string list)" where
  "parseDIC depth fl rs crc lines = parseDIC_lines depth fl rs (Map.empty, crc) (drop 1 lines)"


section \<open>Word checker\<close>

text \<open>What the read \<^verbatim>\<open>this.dictionaryTable[word]\<close> gives. The table is an object
  literal, or an object that \<^verbatim>\<open>JSON.parse\<close> built, so a word that is not one of its own
  keys is looked up in \<^verbatim>\<open>Object.prototype\<close>: there it finds a function, kept here with its
  \<^verbatim>\<open>length\<close>, or for \<^verbatim>\<open>__proto__\<close> the prototype object itself, or nothing.\<close>

datatype looked = Undef | Own entry | Inherited_function nat | Inherited_object

definition Object_prototype :: "(string \<times> looked) list" where
  "Object_prototype =
     [(''constructor'', Inherited_function 1),
      (''__defineGetter__'', Inherited_function 2),
      (''__defineSetter__'', Inherited_function 2),
      (''hasOwnProperty'', Inherited_function 1),
      (''__lookupGetter__'', Inherited_function 1),
      (''__lookupSetter__'', Inherited_function 1),
      (''isPrototypeOf'', Inherited_function 1),
      (''propertyIsEnumerable'', Inherited_function 1),
      (''toString'', Inherited_function 0),
      (''valueOf'', Inherited_function 0),
      (''__proto__'', Inherited_object),
      (''toLocaleString'', Inherited_function 0)]"

definition read_table :: "table \<Rightarrow> string \<Rightarrow> looked" where
  "read_table tbl word =
     (case tbl word of
        Some e \<Rightarrow> Own e
      | None \<Rightarrow> (case map_of Object_prototype word of Some v \<Rightarrow> v | None \<Rightarrow> Undef))"

text \<open>\<^verbatim>\<open>Array.prototype.concat.apply([], this.dictionaryTable[word])\<close>: no arguments for
  \<^verbatim>\<open>undefined\<close> and \<^verbatim>\<open>null\<close>; the rule-code arrays appended one after the other; for a
  function as many arguments as its \<^verbatim>\<open>length\<close>, each \<^verbatim>\<open>undefined\<close>; none for the
  prototype object, which has no \<^verbatim>\<open>length\<close>. An element \<open>None\<close> is \<^verbatim>\<open>undefined\<close>.\<close>

definition concat_apply :: "looked \<Rightarrow> string option list" where
  "concat_apply v =
     (case v of
        Undef \<Rightarrow> []
      | Own Null \<Rightarrow> []
      | Own (Codes cs) \<Rightarrow> map Some (concat cs)
      | Inherited_function n \<Rightarrow> replicate n None
      | Inherited_object \<Rightarrow> [])"

text \<open>\<^verbatim>\<open>wordFlags.indexOf(this.flags[flag]) !== -1\<close>: strict equality, so a string is
  found among the strings and \<^verbatim>\<open>undefined\<close> among the \<^verbatim>\<open>undefined\<close> elements.\<close>

definition found_flag :: "string option list \<Rightarrow> flagval option \<Rightarrow> bool" where
  "found_flag codes v = (case v of Some (Str x) \<Rightarrow> Some x \<in> set codes | _ \<Rightarrow> None \<in> set codes)"

text \<open>\<^verbatim>\<open>hasFlag\<close>; the third argument is \<open>None\<close> when the caller passes two.\<close>

definition hasFlag :: "typo \<Rightarrow> string \<Rightarrow> string \<Rightarrow> string list option \<Rightarrow> error + bool" where
  "hasFlag s word flag wordFlags =
     (if \<not> loaded s then Inl NotLoaded
      else if flag \<in> dom (flags s) then
        (let codes = (case wordFlags of
                     None \<Rightarrow> concat_apply (read_table (dictionaryTable s) word)
                   | Some given \<Rightarrow> map Some given)
         in if found_flag codes (flags s flag) then Inr True else Inr False)
      else Inr False)"

text \<open>The number that \<^verbatim>\<open>>=\<close> compares a directive's value as: \<^verbatim>\<open>NaN\<close>, an infinity with its
  sign (\<open>True\<close> is minus), or a sign, a decimal mantissa \<open>m\<close> and an exponent \<open>e\<close> for the
  value \<open>m * 10 ^ e\<close> of the literal, before it is rounded to a double.\<close>

datatype number = NaN | Infinity bool | Finite bool nat int

definition is_digit :: "char \<Rightarrow> bool" where
  "is_digit c = (c \<in> set ''0123456789'')"

definition digit_of :: "char \<Rightarrow> nat option" where
  "digit_of c =
     map_of (zip ''0123456789abcdefABCDEF''
       [0, 1, 2, 3, 4, 5, 6, 7, 8, 9, 10, 11, 12, 13, 14, 15, 10, 11, 12, 13, 14, 15]) c"

fun radix_value :: "nat \<Rightarrow> nat \<Rightarrow> string \<Rightarrow> nat option" where
  "radix_value base acc [] = Some acc"
| "radix_value base acc (c # cs) =
     (case digit_of c of
        None \<Rightarrow> None
      | Some d \<Rightarrow> if d < base then radix_value base (base * acc + d) cs else None)"

text \<open>The prefixes \<^verbatim>\<open>0x\<close>, \<^verbatim>\<open>0o\<close> and \<^verbatim>\<open>0b\<close> of a literal in another radix, in either
  case: the radix and the digits.\<close>

definition nondecimal_radix :: "string \<Rightarrow> (nat \<times> string) option" where
  "nondecimal_radix t =
     (case t of
        a # b # ds \<Rightarrow>
          if a = CHR ''0'' \<and> b \<in> set ''xX'' then Some (16, ds)
          else if a = CHR ''0'' \<and> b \<in> set ''oO'' then Some (8, ds)
          else if a = CHR ''0'' \<and> b \<in> set ''bB'' then Some (2, ds)
          else None
      | _ \<Rightarrow> None)"

text \<open>The exponent part of a decimal literal, or nothing: \<open>None\<close> when the rest of the
  string is neither.\<close>

definition exponent_part :: "string \<Rightarrow> int option" where
  "exponent_part r =
     (case r of
        [] \<Rightarrow> Some 0
      | c # r' \<Rightarrow>
          if c \<in> set ''eE'' then
            (case r' of
               [] \<Rightarrow> None
             | sg # ds \<Rightarrow>
                 if sg = CHR ''+'' then (if ds = [] then None else map_option int (radix_value 10 0 ds))
                 else if sg = CHR ''-'' then
                   (if ds = [] then None else map_option (\<lambda>x. - int x) (radix_value 10 0 ds))
                 else map_option int (radix_value 10 0 r'))
          else None)"

text \<open>A signed decimal literal: \<^verbatim>\<open>Infinity\<close>, or digits with an optional fraction and an
  optional exponent, at least one digit before or after the point.\<close>

definition decimal_literal :: "string \<Rightarrow> number" where
  "decimal_literal t =
     (let neg = (take 1 t = ''-'');
          u = (if take 1 t = ''+'' \<or> take 1 t = ''-'' then drop 1 t else t)
      in if u = ''Infinity'' then Infinity neg
         else
           (let ip = takeWhile is_digit u;
                r1 = dropWhile is_digit u;
                fp = (if take 1 r1 = ''.'' then takeWhile is_digit (drop 1 r1) else []);
                r2 = (if take 1 r1 = ''.'' then dropWhile is_digit (drop 1 r1) else r1)
            in if ip = [] \<and> fp = [] then NaN
               else
                 (case radix_value 10 0 (ip @ fp) of
                    None \<Rightarrow> NaN
                  | Some m \<Rightarrow>
                      (case exponent_part r2 of
                         None \<Rightarrow> NaN
                       | Some ex \<Rightarrow> Finite neg m (ex - int (length fp))))))"

text \<open>The conversion of a string to a number: white space around the literal is dropped,
  the empty string is 0, a literal in another radix has no sign, and every string that is
  no literal is \<^verbatim>\<open>NaN\<close>.\<close>

definition StringToNumber :: "string \<Rightarrow> number" where
  "StringToNumber str =
     (let t = trim str in
      if t = [] then Finite False 0 0
      else
        (case nondecimal_radix t of
           Some (base, ds) \<Rightarrow>
             (if ds = [] then NaN
              else (case radix_value base 0 ds of None \<Rightarrow> NaN | Some v \<Rightarrow> Finite False v 0))
         | None \<Rightarrow> decimal_literal t))"

definition ToNumber :: "flagval \<Rightarrow> number" where
  "ToNumber v = (case v of Undefined \<Rightarrow> NaN | Str t \<Rightarrow> StringToNumber t)"

text \<open>The greatest power of two that is at most \<open>n\<close>, for \<open>n\<close> from 1 on.\<close>

fun pow2_below :: "nat \<Rightarrow> nat" where
  "pow2_below n = (if n < 2 then 1 else 2 * pow2_below (n div 2))"

declare pow2_below.simps [simp del]

text \<open>The literal is rounded to the nearest double, ties to the even mantissa, and a
  length \<open>n\<close> is a double itself: the rounded value is at most \<open>n\<close> exactly when the literal
  is at most \<open>n\<close> plus half the distance to the next double, which is
  \<open>pow2_below n / 2 ^ 53\<close>, and \<open>1 / 2 ^ 1075\<close> for 0. The bound is the fraction
  \<open>fst / snd\<close>. No string has \<open>2 ^ 52\<close> code units.\<close>

definition round_bound :: "nat \<Rightarrow> nat \<times> nat" where
  "round_bound n =
     (if n = 0 then (1, 2 ^ 1075)
      else if n < 2 ^ 52 then (n * 2 ^ 53 + pow2_below n, 2 ^ 53)
      else (n, 1))"

text \<open>\<^verbatim>\<open>n >= x\<close> for a length \<open>n\<close>: false for \<^verbatim>\<open>NaN\<close>.\<close>

definition ge_number :: "nat \<Rightarrow> number \<Rightarrow> bool" where
  "ge_number n x =
     (case x of
        NaN \<Rightarrow> False
      | Infinity neg \<Rightarrow> neg
      | Finite neg m e \<Rightarrow>
          if neg then True
          else if 0 \<le> e then m * 10 ^ nat e * snd (round_bound n) \<le> fst (round_bound n)
          else m * snd (round_bound n) \<le> fst (round_bound n) * 10 ^ nat (- e))"

text \<open>\<^verbatim>\<open>word.length >= this.flags.COMPOUNDMIN\<close>; a missing value is \<^verbatim>\<open>undefined\<close>.\<close>

definition length_ge :: "string \<Rightarrow> flagval option \<Rightarrow> bool" where
  "length_ge word v =
     ge_number (length word) (case v of None \<Rightarrow> NaN | Some x \<Rightarrow> ToNumber x)"



text \<open>The loop of \<^verbatim>\<open>checkExact\<close> over the rule-code sets of a word.\<close>

fun checkExact_codes :: "typo \<Rightarrow> string \<Rightarrow> string list list \<Rightarrow> error + bool" where
  "checkExact_codes s word [] = Inr False"
| "checkExact_codes s word (rc # rest) =
     bindE (hasFlag s word ''ONLYINCOMPOUND'' (Some rc))
       (\<lambda>only. if \<not> only then Inr True else checkExact_codes s word rest)"

text \<open>\<^verbatim>\<open>checkExact\<close>. An inherited function is neither \<^verbatim>\<open>undefined\<close> nor \<^verbatim>\<open>null\<close> nor
  of type \<^verbatim>\<open>'object'\<close>; the inherited prototype object is of type \<^verbatim>\<open>'object'\<close> and has no
  \<^verbatim>\<open>length\<close>, so the loop over it has no round. Both fall to the last \<^verbatim>\<open>return false\<close>.\<close>

definition checkExact :: "typo \<Rightarrow> string \<Rightarrow> error + bool" where
  "checkExact s word =
     (if \<not> loaded s then Inl NotLoaded
      else
        (case read_table (dictionaryTable s) word of
           Undef \<Rightarrow>
             if ''COMPOUNDMIN'' \<in> dom (flags s) \<and> length_ge word (flags s ''COMPOUNDMIN'')
             then Inr (list_ex (\<lambda>re. re word) (compoundRules s))
             else Inr False
         | Own Null \<Rightarrow> Inr True
         | Own (Codes ruleCodes) \<Rightarrow> checkExact_codes s word ruleCodes
         | Inherited_function n \<Rightarrow> Inr False
         | Inherited_object \<Rightarrow> Inr False))"

text \<open>\<^verbatim>\<open>trimmedWord[0]\<close> as the left operand of a string concatenation: the empty string has
  no code unit 0, and \<^verbatim>\<open>undefined + x\<close> is the text \<^verbatim>\<open>undefined\<close> followed by \<open>x\<close>.\<close>

definition index0 :: "string \<Rightarrow> string" where
  "index0 w = (case w of [] \<Rightarrow> ''undefined'' | c # _ \<Rightarrow> [c])"

text \<open>The block of \<^verbatim>\<open>check\<close> for a word supplied in upper case: \<open>Some b\<close> when it
  returns \<open>b\<close>, \<open>None\<close> when control leaves the block.\<close>

definition check_allcaps :: "typo \<Rightarrow> string \<Rightarrow> error + bool option" where
  "check_allcaps s trimmedWord =
     (let capitalizedWord = index0 trimmedWord @ toLowerCase (drop 1 trimmedWord) in
      bindE (hasFlag s capitalizedWord ''KEEPCASE'' None)
        (\<lambda>keep. if keep then Inr (Some False)
           else bindE (checkExact s capitalizedWord)
             (\<lambda>cap. if cap then Inr (Some True)
                else bindE (checkExact s (toLowerCase trimmedWord))
                  (\<lambda>low. if low then Inr (Some True) else Inr None))))"

text \<open>The rest of \<^verbatim>\<open>check\<close>: \<^verbatim>\<open>trimmedWord[0].toLowerCase()\<close> is a call on
  \<^verbatim>\<open>undefined\<close> when the trimmed word is empty.\<close>

definition check_uncapitalized :: "typo \<Rightarrow> string \<Rightarrow> error + bool" where
  "check_uncapitalized s trimmedWord =
     (case trimmedWord of
        [] \<Rightarrow> Inl TypeError
      | c # cs \<Rightarrow>
          (let uncapitalized = toLowerCase [c] @ cs in
           if uncapitalized \<noteq> trimmedWord then
             bindE (hasFlag s uncapitalized ''KEEPCASE'' None)
               (\<lambda>keep. if keep then Inr False
                  else bindE (checkExact s uncapitalized)
                    (\<lambda>unc. if unc then Inr True else Inr False))
           else Inr False))"

definition check :: "typo \<Rightarrow> string \<Rightarrow> error + bool" where
  "check s aWord =
     (if \<not> loaded s then Inl NotLoaded
      else
        (let trimmedWord = trim aWord in
         bindE (checkExact s trimmedWord)
           (\<lambda>exact. if exact then Inr True
              else bindE
                (if toUpperCase trimmedWord = trimmedWord then check_allcaps s trimmedWord
                 else Inr None)
                (\<lambda>r. case r of
                        Some b \<Rightarrow> Inr b
                      | None \<Rightarrow> check_uncapitalized s trimmedWord))))"

section \<open>Suggestion engine\<close>

text \<open>\<^verbatim>\<open>limit = limit || 5\<close>: 5 for a missing argument and for 0.\<close>

definition effective_limit :: "int option \<Rightarrow> int" where
  "effective_limit l = (case l of None \<Rightarrow> 5 | Some n \<Rightarrow> if n = 0 then 5 else n)"

text \<open>\<^verbatim>\<open>xs.slice(0, n)\<close>: a negative \<open>n\<close> counts from the end.\<close>

definition slice0 :: "'a list \<Rightarrow> int \<Rightarrow> 'a list" where
  "slice0 xs n = (if n < 0 then take (nat (int (length xs) + n)) xs else take (nat n) xs)"

text \<open>The test of the memoized entry at the head of \<^verbatim>\<open>suggest\<close>: \<open>Some r\<close> when it
  returns \<open>r\<close>.\<close>

definition memo_hit :: "typo \<Rightarrow> string \<Rightarrow> int \<Rightarrow> string list option" where
  "memo_hit s word lim =
     (case memoized s word of
        None \<Rightarrow> None
      | Some m \<Rightarrow>
          if lim \<le> limit m \<or> int (length (suggestions m)) < limit m
          then Some (slice0 (suggestions m) lim)
          else None)"

text \<open>The loop over the replacement table: \<open>Some c\<close> when it returns \<open>[c]\<close>.\<close>

fun replacements :: "typo \<Rightarrow> string \<Rightarrow> (string \<times> string) list \<Rightarrow> error + string option" where
  "replacements s word [] = Inr None"
| "replacements s word (replacementEntry # rest) =
     (if indexOf word (fst replacementEntry) \<noteq> None then
        (let correctedWord = replace_str word (fst replacementEntry) (snd replacementEntry) in
         bindE (check s correctedWord)
           (\<lambda>ok. if ok then Inr (Some correctedWord) else replacements s word rest))
      else replacements s word rest)"

text \<open>\<^verbatim>\<open>edits1\<close>. The fourth loop keeps the guard of the third and pushes onto
  \<^verbatim>\<open>replaces\<close>; \<^verbatim>\<open>inserts\<close> stays empty. The argument \<^verbatim>\<open>known_only\<close> is not read.\<close>

definition splits :: "string \<Rightarrow> (string \<times> string) list" where
  "splits word = map (\<lambda>i. (take i word, drop i word)) [0..<length word + 1]"

definition deletes :: "(string \<times> string) list \<Rightarrow> string list" where
  "deletes sp = concat (map (\<lambda>(a, b). if b \<noteq> [] then [a @ drop 1 b] else []) sp)"

definition transposes :: "(string \<times> string) list \<Rightarrow> string list" where
  "transposes sp =
     concat (map (\<lambda>(a, b). if length b > 1 \<and> b ! 1 \<noteq> b ! 0
                            then [a @ [b ! 1] @ [b ! 0] @ drop 2 b] else []) sp)"

definition replaces :: "string \<Rightarrow> (string \<times> string) list \<Rightarrow> string list" where
  "replaces alpha sp =
     concat (map (\<lambda>(a, b). if b \<noteq> [] then map (\<lambda>c. a @ [c] @ drop 1 b) alpha else []) sp)
     @ concat (map (\<lambda>(a, b). if b \<noteq> [] then map (\<lambda>c. a @ [c] @ b) alpha else []) sp)"

definition inserts :: "string list" where
  "inserts = []"

definition edits1_word :: "string \<Rightarrow> string \<Rightarrow> string list" where
  "edits1_word alpha word =
     (let sp = splits word in deletes sp @ transposes sp @ replaces alpha sp @ inserts)"

definition edits1 :: "string \<Rightarrow> string list \<Rightarrow> string list" where
  "edits1 alpha wordlist = concat (map (edits1_word alpha) wordlist)"

fun known :: "typo \<Rightarrow> string list \<Rightarrow> error + string list" where
  "known s [] = Inr []"
| "known s (w # ws) =
     bindE (check s w) (\<lambda>ok. bindE (known s ws) (\<lambda>rv. Inr (if ok then w # rv else rv)))"

text \<open>\<^verbatim>\<open>correct\<close>, with the final value of \<^verbatim>\<open>limit\<close> beside the suggestions. After the
  two calls of \<^verbatim>\<open>known\<close> the source counts and sorts the corrections, which raises
  nothing, and then evaluates the loop header
  \<^verbatim>\<open>Math.min(limit, sortedcorrections.length)\<close>; \<^verbatim>\<open>sortedcorrections\<close> is declared
  nowhere (the array is \<^verbatim>\<open>sorted_corrections\<close>), so the header raises before the loop
  body reads the sorted array.\<close>

definition correct :: "typo \<Rightarrow> string \<Rightarrow> int \<Rightarrow> error + string list \<times> int" where
  "correct s word lim =
     (let ed1 = edits1 (alphabet s) [word];
          ed2 = edits1 (alphabet s) ed1
      in bindE (known s ed1) (\<lambda>k1. bindE (known s ed2) (\<lambda>k2. Inl ReferenceError)))"

text \<open>\<^verbatim>\<open>suggest\<close>: the result and the engine after the call.\<close>

definition suggest :: "typo \<Rightarrow> string \<Rightarrow> int option \<Rightarrow> (error + string list) \<times> typo" where
  "suggest s word limit0 =
     (if \<not> loaded s then (Inl NotLoaded, s)
      else
        (let lim = effective_limit limit0 in
         case memo_hit s word lim of
           Some r \<Rightarrow> (Inr r, s)
         | None \<Rightarrow>
             (case check s word of
                Inl e \<Rightarrow> (Inl e, s)
              | Inr True \<Rightarrow> (Inr [], s)
              | Inr False \<Rightarrow>
                  (case replacements s word (replacementTable s) of
                     Inl e \<Rightarrow> (Inl e, s)
                   | Inr (Some correctedWord) \<Rightarrow> (Inr [correctedWord], s)
                   | Inr None \<Rightarrow>
                       (let s1 = s\<lparr>alphabet := ''abcdefghijklmnopqrstuvwxyz''\<rparr> in
                        case correct s1 word lim of
                          Inl e \<Rightarrow> (Inl e, s1)
                        | Inr (sugg, lim') \<Rightarrow>
                            (Inr sugg,
                             s1\<lparr>memoized := (memoized s1)(word \<mapsto>
                                   \<lparr>suggestions = sugg, limit = lim'\<rparr>)\<rparr>))))))"

section \<open>Example engines\<close>

text \<open>An engine that is loaded and whose dictionary lists no word.\<close>

definition no_words :: typo where
  "no_words = \<lparr>rules = Map.empty, dictionaryTable = Map.empty, compoundRules = [],
     compoundRuleCodes = Map.empty, replacementTable = [], flags = Map.empty,
     memoized = Map.empty, loaded = True, alphabet = []\<rparr>"

text \<open>An engine whose dictionary lists the word \<^verbatim>\<open>spelling\<close>, without flags.\<close>

definition spelling :: typo where
  "spelling = no_words\<lparr>dictionaryTable := [''spelling'' \<mapsto> Null]\<rparr>"

text \<open>An engine with \<^verbatim>\<open>KEEPCASE K\<close> whose dictionary holds \<^verbatim>\<open>cat\<close> with the rule codes
  \<^verbatim>\<open>K\<close>.\<close>

definition keepcase_cat :: typo where
  "keepcase_cat = no_words\<lparr>dictionaryTable := [''cat'' \<mapsto> Codes [[''K'']]],
     flags := [''KEEPCASE'' \<mapsto> Str ''K'']\<rparr>"





text \<open>An engine restored with a memoized entry for \<^verbatim>\<open>teh\<close> and the replacement pair
  \<^verbatim>\<open>REP f ph\<close>.\<close>

definition cached :: typo where
  "cached = no_words\<lparr>
     dictionaryTable := [''the'' \<mapsto> Null, ''phone'' \<mapsto> Null],
     replacementTable := [(''f'', ''ph'')],
     memoized := [''teh'' \<mapsto> \<lparr>suggestions = [''the'', ''ten'', ''tea''], limit = 5\<rparr>]\<rparr>"

section \<open>The flag codec and the dictionary builder\<close>

text \<open>
  Claim C8 reads \<^verbatim>\<open>FLAG num\<close> as a split of the code string at its commas. The branch
  of \<^verbatim>\<open>parseRuleCodes\<close> for \<^verbatim>\<open>num\<close> reads the undeclared \<^verbatim>\<open>textCode\<close>: for every
  non-empty code string the call raises a ReferenceError and returns no list.
\<close>

theorem parseRuleCodes_num_raises:
  "fl ''FLAG'' = Some (Str ''num'') \<Longrightarrow> t \<noteq> [] \<Longrightarrow>
   parseRuleCodes fl (Some t) = Inl ReferenceError"
  by (auto simp: parseRuleCodes_def)

theorem parseRuleCodes_num_raises_witness:
  "parseRuleCodes [''FLAG'' \<mapsto> Str ''num''] (Some ''1,2'') = Inl ReferenceError"
  using parseRuleCodes_num_raises [of "[''FLAG'' \<mapsto> Str ''num'']" "''1,2''"] by simp

text \<open>The other encodings, on the same code string, for comparison.\<close>

lemma parseRuleCodes_other_encodings:
  "parseRuleCodes Map.empty (Some ''1,2'') = Inr [''1'', '','', ''2'']"
  "parseRuleCodes [''FLAG'' \<mapsto> Str ''long''] (Some ''1,2'') = Inr [''1,'', ''2'']"
  "parseRuleCodes [''FLAG'' \<mapsto> Str ''UTF-8''] (Some ''1,2'') = Inr [''1'', '','', ''2'']"
  by (simp_all add: parseRuleCodes_def split_chars_def)

text \<open>What \<^verbatim>\<open>addWord\<close> does for a word that is new or flagless.\<close>

lemma addWord_flagless_cases:
  "tbl word = None \<or> tbl word = Some Null \<Longrightarrow>
   addWord tbl word rs = (if rs = [] then Inr (tbl(word \<mapsto> Null)) else Inl TypeError)"
  by (auto simp: addWord_def push_def typeof_def Let_def fun_upd_idem)

text \<open>
  Claim C1 says that a word registered with a non-empty rule-code list ends up mapped to
  a list of rule-code sets, also when it was first registered without flags. In
  \<^verbatim>\<open>addWord\<close> the array is created only when \<^verbatim>\<open>typeof dictionaryTable[word]\<close> is not
  \<^verbatim>\<open>'object'\<close>, and \<^verbatim>\<open>typeof null\<close> is \<^verbatim>\<open>'object'\<close>: for a word that is new (it has just
  been set to \<^verbatim>\<open>null\<close>) or that is flagless, the call of \<^verbatim>\<open>push\<close> is a call on
  \<^verbatim>\<open>null\<close>, and the registration raises a TypeError.
\<close>

theorem addWord_codes_raises:
  "rs \<noteq> [] \<Longrightarrow> tbl word = None \<or> tbl word = Some Null \<Longrightarrow>
   addWord tbl word rs = Inl TypeError"
  using addWord_flagless_cases [of tbl word rs] by simp

theorem addWord_codes_raises_witness:
  "addWord Map.empty ''cat'' [''S''] = Inl TypeError \<and>
   addWord [''cat'' \<mapsto> Null] ''cat'' [''S''] = Inl TypeError"
  using addWord_codes_raises [of "[''S'']" Map.empty "''cat''"]
    addWord_codes_raises [of "[''S'']" "[''cat'' \<mapsto> Null]" "''cat''"]
  by simp

text \<open>A registration without rule codes records the word as flagless, once.\<close>

lemma addWord_no_codes:
  "addWord tbl word [] = Inr (if word \<in> dom tbl then tbl else tbl(word \<mapsto> Null))"
  by (simp add: addWord_def)

text \<open>Only a word that already carries rule-code sets can take one more.\<close>

lemma addWord_codes_appends:
  "tbl word = Some (Codes cs) \<Longrightarrow>
   addWord tbl word rs = Inr (if rs = [] then tbl else tbl(word \<mapsto> Codes (cs @ [rs])))"
  by (auto simp: addWord_def push_def typeof_def Let_def)

subsection \<open>No table that the builder returns holds a rule-code set\<close>

lemma addWord_ran:
  assumes "ran tbl \<subseteq> {Null}" and "addWord tbl word rs = Inr tbl'"
  shows "ran tbl' \<subseteq> {Null}"
proof -
  from assms(1) have w: "tbl word = None \<or> tbl word = Some Null"
    by (cases "tbl word") (auto simp: ran_def)
  with assms(2) have "tbl' = tbl(word \<mapsto> Null)"
    by (simp add: addWord_flagless_cases split: if_splits)
  with assms(1) show ?thesis
    by (auto simp: ran_def)
qed

lemma addWord_each_ran:
  "ran tbl \<subseteq> {Null} \<Longrightarrow> addWord_each tbl ws = Inr tbl' \<Longrightarrow> ran tbl' \<subseteq> {Null}"
proof (induction ws arbitrary: tbl)
  case Nil
  then show ?case by simp
next
  case (Cons w ws)
  from Cons.prems(2) obtain t1
    where 1: "addWord tbl w [] = Inr t1" and 2: "addWord_each t1 ws = Inr tbl'"
    by (auto simp: bindE_def split: sum.splits)
  from addWord_ran [OF Cons.prems(1) 1] have "ran t1 \<subseteq> {Null}" .
  from Cons.IH [OF this 2] show ?case .
qed

lemma combine_later_ran:
  "ran tbl \<subseteq> {Null} \<Longrightarrow> combine_later depth rs rule newWord tbl later = Inr tbl' \<Longrightarrow>
   ran tbl' \<subseteq> {Null}"
proof (induction later arbitrary: tbl)
  case Nil
  then show ?case by simp
next
  case (Cons code later)
  from Cons.prems(2) obtain t1 where
    1: "(case rs code of
          None \<Rightarrow> Inr tbl
        | Some combineRule \<Rightarrow>
            if combineable combineRule \<and> rtype rule \<noteq> rtype combineRule then
              bindE (applyRule depth rs newWord combineRule) (addWord_each tbl)
            else Inr tbl) = Inr t1"
    and 2: "combine_later depth rs rule newWord t1 later = Inr tbl'"
    by (auto simp: bindE_def split: sum.splits)
  from 1 Cons.prems(1) have "ran t1 \<subseteq> {Null}"
    by (auto simp: bindE_def split: option.splits if_splits sum.splits dest: addWord_each_ran)
  from Cons.IH [OF this 2] show ?case .
qed

lemma add_newWords_ran:
  "ran tbl \<subseteq> {Null} \<Longrightarrow> add_newWords depth rs rule later tbl ws = Inr tbl' \<Longrightarrow>
   ran tbl' \<subseteq> {Null}"
proof (induction ws arbitrary: tbl)
  case Nil
  then show ?case by simp
next
  case (Cons w ws)
  from Cons.prems(2) obtain t1 t2 where
    1: "addWord tbl w [] = Inr t1"
    and 2: "(if combineable rule then combine_later depth rs rule w t1 later else Inr t1) = Inr t2"
    and 3: "add_newWords depth rs rule later t2 ws = Inr tbl'"
    by (auto simp: bindE_def split: sum.splits)
  from addWord_ran [OF Cons.prems(1) 1] have "ran t1 \<subseteq> {Null}" .
  with 2 have "ran t2 \<subseteq> {Null}"
    by (auto split: if_splits dest: combine_later_ran)
  from Cons.IH [OF this 3] show ?case .
qed

lemma apply_codes_ran:
  "ran tbl \<subseteq> {Null} \<Longrightarrow> apply_codes depth rs word (tbl, crc) codes = Inr (tbl', crc') \<Longrightarrow>
   ran tbl' \<subseteq> {Null}"
proof (induction codes arbitrary: tbl crc)
  case Nil
  then show ?case by simp
next
  case (Cons code later)
  from Cons.prems(2) obtain t1 where
    1: "(case rs code of
          None \<Rightarrow> Inr tbl
        | Some rule \<Rightarrow>
            bindE (applyRule depth rs word rule) (add_newWords depth rs rule later tbl)) = Inr t1"
    and 2: "apply_codes depth rs word
              (t1, (case crc code of None \<Rightarrow> crc | Some ws \<Rightarrow> crc(code \<mapsto> ws @ [word]))) later
            = Inr (tbl', crc')"
    by (auto simp: bindE_def split: sum.splits)
  from 1 Cons.prems(1) have "ran t1 \<subseteq> {Null}"
    by (auto simp: bindE_def split: option.splits sum.splits dest: add_newWords_ran)
  from Cons.IH [OF this 2] show ?case .
qed

lemma parseDIC_line_ran:
  assumes "ran tbl \<subseteq> {Null}" and "parseDIC_line depth fl rs (tbl, crc) line = Inr (tbl', crc')"
  shows "ran tbl' \<subseteq> {Null}"
proof (cases "split2 line")
  case (Pair word codes)
  show ?thesis
  proof (cases codes)
    case None
    with Pair assms(2) have "addWord tbl (trim word) [] = Inr tbl'"
      by (auto simp: parseDIC_line_def bindE_def split: sum.splits)
    from addWord_ran [OF assms(1) this] show ?thesis .
  next
    case (Some c)
    with Pair assms(2) obtain rcs t1 where
      1: "(if ''NEEDAFFIX'' \<notin> dom fl \<or> \<not> has_code rcs (fl ''NEEDAFFIX'')
           then addWord tbl word rcs else Inr tbl) = Inr t1"
      and 2: "apply_codes depth rs word (t1, crc) rcs = Inr (tbl', crc')"
      by (auto simp: parseDIC_line_def bindE_def split: sum.splits cong del: if_weak_cong)
    from 1 assms(1) have "ran t1 \<subseteq> {Null}"
      by (auto split: if_splits dest: addWord_ran)
    from apply_codes_ran [OF this 2] show ?thesis .
  qed
qed

lemma parseDIC_lines_ran:
  "ran (fst st) \<subseteq> {Null} \<Longrightarrow> parseDIC_lines depth fl rs st ls = Inr st' \<Longrightarrow>
   ran (fst st') \<subseteq> {Null}"
proof (induction ls arbitrary: st)
  case Nil
  then show ?case by simp
next
  case (Cons line ls)
  from Cons.prems(2) obtain st1 where
    1: "parseDIC_line depth fl rs st line = Inr st1"
    and 2: "parseDIC_lines depth fl rs st1 ls = Inr st'"
    by (auto simp: bindE_def split: sum.splits)
  from parseDIC_line_ran [of "fst st" depth fl rs "snd st" line "fst st1" "snd st1"]
    Cons.prems(1) 1
  have "ran (fst st1) \<subseteq> {Null}" by simp
  from Cons.IH [OF this 2] show ?case .
qed

text \<open>Whatever the lines, the rules and the flags: when \<^verbatim>\<open>parseDIC\<close> returns a table,
  every word of it is flagless.\<close>

lemma parseDIC_flagless:
  assumes "parseDIC depth fl rs crc ls = Inr (tbl, crc')"
  shows "tbl word = None \<or> tbl word = Some Null"
proof -
  from assms have "ran tbl \<subseteq> {Null}"
    using parseDIC_lines_ran [of "(Map.empty, crc)" depth fl rs "drop 1 ls" "(tbl, crc')"]
    by (simp add: parseDIC_def)
  then show ?thesis
    by (cases "tbl word") (auto simp: ran_def)
qed

lemma parseDIC_examples:
  "parseDIC 1 Map.empty Map.empty Map.empty [''1'', ''cat/S''] = Inl TypeError"
  "parseDIC 1 Map.empty Map.empty Map.empty [''2'', ''cat'', ''dog/''] =
     Inr ([''cat'' \<mapsto> Null, ''dog'' \<mapsto> Null], Map.empty)"
  by (simp_all add: parseDIC_def parseDIC_line_def split2_def parseRuleCodes_def split_chars_def
      addWord_def push_def typeof_def bindE_def trim_def is_space_def)

text \<open>
  Claim C7 is about a line \<^verbatim>\<open>word/codes\<close>: with \<^verbatim>\<open>NEEDAFFIX\<close> configured and its value
  among the decoded codes the base word is not registered, otherwise it is. The guard of
  the source is the one the claim describes, and under it the base word is skipped: the
  table goes unchanged into the affix expansion. In the other case \<^verbatim>\<open>addWord\<close> is
  called with the decoded codes, which registers the base word only when the code list
  is empty; with a code the call raises the TypeError of claim C1, for every table that
  the builder can have reached (its words are new or flagless).
\<close>

theorem parseDIC_line_base_word:
  assumes "split2 line = (word, Some codes)"
    and "parseRuleCodes fl (Some codes) = Inr rcs"
    and "tbl word = None \<or> tbl word = Some Null"
  shows "parseDIC_line depth fl rs (tbl, crc) line =
     (if ''NEEDAFFIX'' \<in> dom fl \<and> has_code rcs (fl ''NEEDAFFIX'')
      then apply_codes depth rs word (tbl, crc) rcs
      else if rcs = [] then Inr (tbl(word \<mapsto> Null), crc)
      else Inl TypeError)"
  using assms
  by (auto simp: parseDIC_line_def bindE_def addWord_flagless_cases)

theorem parseDIC_line_base_word_witness:
  "parseDIC_line 1 Map.empty Map.empty (Map.empty, Map.empty) ''cat/S'' = Inl TypeError \<and>
   parseDIC_line 1 Map.empty Map.empty (Map.empty, Map.empty) ''cat/'' =
     Inr ([''cat'' \<mapsto> Null], Map.empty) \<and>
   parseDIC_line 1 [''NEEDAFFIX'' \<mapsto> Str ''S''] Map.empty (Map.empty, Map.empty) ''cat/S'' =
     Inr (Map.empty, Map.empty)"
proof -
  have s: "split2 ''cat/S'' = (''cat'', Some ''S'')" "split2 ''cat/'' = (''cat'', Some [])"
    by (simp_all add: split2_def)
  have p: "parseRuleCodes Map.empty (Some ''S'') = Inr [''S'']"
    "parseRuleCodes Map.empty (Some []) = Inr []"
    "parseRuleCodes [''NEEDAFFIX'' \<mapsto> Str ''S''] (Some ''S'') = Inr [''S'']"
    by (simp_all add: parseRuleCodes_def split_chars_def)
  show ?thesis
    using parseDIC_line_base_word [OF s(1) p(1), of Map.empty 1 Map.empty Map.empty]
      parseDIC_line_base_word [OF s(2) p(2), of Map.empty 1 Map.empty Map.empty]
      parseDIC_line_base_word [OF s(1) p(3), of Map.empty 1 Map.empty Map.empty]
    by (simp add: has_code_def bindE_def)
qed

section \<open>The word checker\<close>

subsection \<open>The value of \<^verbatim>\<open>COMPOUNDMIN\<close> as a number\<close>












lemma number_examples:
  "ToNumber (Str ''3'') = Finite False 3 0"
  "ToNumber (Str ''+3'') = Finite False 3 0"
  "ToNumber (Str ''-1'') = Finite True 1 0"
  "ToNumber (Str ''3.0'') = Finite False 30 (- 1)"
  "ToNumber (Str ''1e1'') = Finite False 1 1"
  "ToNumber (Str ''0x3'') = Finite False 3 0"
  "ToNumber (Str []) = Finite False 0 0"
  "ToNumber (Str ''-0x3'') = NaN"
  "ToNumber (Str ''three'') = NaN"
  "ToNumber Undefined = NaN"
  by (simp_all add: ToNumber_def StringToNumber_def trim_def is_space_def nondecimal_radix_def
      decimal_literal_def is_digit_def digit_of_def exponent_part_def Let_def)

subsection \<open>On a loaded engine \<^verbatim>\<open>hasFlag\<close> and \<^verbatim>\<open>checkExact\<close> return\<close>

lemmas lookups = read_table_def Object_prototype_def concat_apply_def found_flag_def has_code_def




lemma found_flag_given: "found_flag (map Some g) v = has_code g v"
  by (auto simp: found_flag_def has_code_def split: option.splits flagval.splits)

lemma hasFlag_loaded:
  "loaded s \<Longrightarrow>
   hasFlag s w f given =
     Inr (f \<in> dom (flags s) \<and>
          found_flag
            (case given of
               None \<Rightarrow> concat_apply (read_table (dictionaryTable s) w)
             | Some g \<Rightarrow> map Some g)
            (flags s f))"
  by (simp add: hasFlag_def Let_def)

lemma checkExact_codes_loaded:
  "loaded s \<Longrightarrow>
   checkExact_codes s w cs =
     Inr (\<exists>rc \<in> set cs. \<not> (''ONLYINCOMPOUND'' \<in> dom (flags s) \<and>
                               has_code rc (flags s ''ONLYINCOMPOUND'')))"
  by (induction cs) (auto simp: hasFlag_loaded found_flag_given bindE_def)

lemma checkExact_loaded:
  "loaded s \<Longrightarrow>
   checkExact s w =
     Inr (case read_table (dictionaryTable s) w of
            Undef \<Rightarrow>
              ''COMPOUNDMIN'' \<in> dom (flags s) \<and> length_ge w (flags s ''COMPOUNDMIN'') \<and>
              (\<exists>re \<in> set (compoundRules s). re w)
          | Own Null \<Rightarrow> True
          | Own (Codes cs) \<Rightarrow>
              (\<exists>rc \<in> set cs. \<not> (''ONLYINCOMPOUND'' \<in> dom (flags s) \<and>
                                   has_code rc (flags s ''ONLYINCOMPOUND'')))
          | Inherited_function n \<Rightarrow> False
          | Inherited_object \<Rightarrow> False)"
  by (auto simp: checkExact_def checkExact_codes_loaded list_ex_iff
      split: looked.splits entry.splits)

lemma not_loaded_raises:
  "\<not> loaded s \<Longrightarrow> check s w = Inl NotLoaded"
  "\<not> loaded s \<Longrightarrow> checkExact s w = Inl NotLoaded"
  "\<not> loaded s \<Longrightarrow> hasFlag s w f given = Inl NotLoaded"
  by (simp_all add: check_def checkExact_def hasFlag_def)





subsection \<open>\<^verbatim>\<open>check\<close> on blank and on other words\<close>

lemma check_allcaps_total: "loaded s \<Longrightarrow> \<exists>r. check_allcaps s w = Inr r"
  by (simp add: check_allcaps_def Let_def hasFlag_loaded bindE_def checkExact_loaded)

lemma check_uncapitalized_total:
  "loaded s \<Longrightarrow> w \<noteq> [] \<Longrightarrow> \<exists>b. check_uncapitalized s w = Inr b"
  by (cases w)
    (auto simp: check_uncapitalized_def Let_def hasFlag_loaded bindE_def checkExact_loaded)

text \<open>A word with a code unit that is not white space is answered with true or false.\<close>

lemma check_nonblank_total:
  assumes l: "loaded s" and t: "trim w \<noteq> []"
  shows "\<exists>b. check s w = Inr b"
proof -
  obtain e where e: "checkExact s (trim w) = Inr e"
    using checkExact_loaded [OF l] by blast
  obtain r where r: "check_allcaps s (trim w) = Inr r"
    using check_allcaps_total [OF l] by blast
  obtain u where u: "check_uncapitalized s (trim w) = Inr u"
    using check_uncapitalized_total [OF l t] by blast
  show ?thesis
    by (cases r; cases e) (auto simp: check_def Let_def l e r u bindE_def)
qed

text \<open>
  Claim C2 says that on a loaded engine \<^verbatim>\<open>check\<close> never throws, whatever the input, the
  empty string and the strings of white space included. For a word that is empty once trimmed,
  \<^verbatim>\<open>check\<close> looks up the empty word, then, since the empty word is its own upper case,
  the capitalized form \<^verbatim>\<open>undefined + ''\<close>, and when none of these lookups returns it
  evaluates \<^verbatim>\<open>trimmedWord[0].toLowerCase()\<close>, a call on \<^verbatim>\<open>undefined\<close>: a TypeError.
\<close>

theorem check_blank_raises:
  "loaded s \<Longrightarrow> trim w = [] \<Longrightarrow> checkExact s [] = Inr False \<Longrightarrow>
   hasFlag s ''undefined'' ''KEEPCASE'' None = Inr False \<Longrightarrow>
   checkExact s ''undefined'' = Inr False \<Longrightarrow>
   check s w = Inl TypeError"
  by (simp add: check_def Let_def bindE_def toUpperCase_def toLowerCase_def check_allcaps_def
      index0_def check_uncapitalized_def)

theorem check_blank_raises_witness:
  "loaded no_words \<and> check no_words [] = Inl TypeError \<and>
   check no_words ''  '' = Inl TypeError \<and> check spelling [] = Inl TypeError"
proof -
  have t: "trim [] = []" "trim ''  '' = []"
    by (simp_all add: trim_def is_space_def)
  show ?thesis
    using check_blank_raises [of no_words "[]"] check_blank_raises [of no_words "''  ''"]
      check_blank_raises [of spelling "[]"]
    by (simp add: t checkExact_loaded hasFlag_loaded lookups spelling_def no_words_def)
qed

text \<open>
  Claim C5 says that a lowercase dictionary word that carries \<^verbatim>\<open>KEEPCASE\<close> is rejected
  in upper case and in capitalized form. For a word supplied in upper case, \<^verbatim>\<open>check\<close>
  reads the \<^verbatim>\<open>KEEPCASE\<close> flag of the capitalized form only, and then accepts the word
  when its lowercase form is in the dictionary: the flags of the lowercase form are not
  read on this path, while the path for a capitalized word does read them.
\<close>

theorem check_allcaps_accepts_lowercase:
  "loaded s \<Longrightarrow> trim u = u \<Longrightarrow> toUpperCase u = u \<Longrightarrow>
   hasFlag s (index0 u @ toLowerCase (drop 1 u)) ''KEEPCASE'' None = Inr False \<Longrightarrow>
   checkExact s (toLowerCase u) = Inr True \<Longrightarrow>
   check s u = Inr True"
  using checkExact_loaded [of s u] checkExact_loaded [of s "index0 u @ toLowerCase (drop 1 u)"]
  by (auto simp: check_def Let_def bindE_def check_allcaps_def)

theorem check_allcaps_accepts_lowercase_witness:
  "hasFlag keepcase_cat ''cat'' ''KEEPCASE'' None = Inr True \<and>
   check keepcase_cat ''cat'' = Inr True \<and>
   check keepcase_cat ''CAT'' = Inr True \<and>
   check keepcase_cat ''Cat'' = Inr False"
proof -
  have c: "toUpperCase ''CAT'' = ''CAT''" "toLowerCase ''CAT'' = ''cat''"
    "toLowerCase ''AT'' = ''at''" "toUpperCase ''Cat'' = ''CAT''" "toUpperCase ''cat'' = ''CAT''"
    "toLowerCase ''C'' = ''c''" "toLowerCase ''c'' = ''c''"
    by (simp_all add: toUpperCase_def toLowerCase_def upper_char_def lower_char_def
        lower_letters_def upper_letters_def)
  have t: "trim ''CAT'' = ''CAT''" "trim ''Cat'' = ''Cat''" "trim ''cat'' = ''cat''"
    by (simp_all add: trim_def is_space_def)
  have l: "loaded keepcase_cat"
    by (simp add: keepcase_cat_def no_words_def)
  have "check keepcase_cat ''CAT'' = Inr True"
    using check_allcaps_accepts_lowercase [of keepcase_cat "''CAT''"]
    by (simp add: c t l checkExact_loaded hasFlag_loaded index0_def keepcase_cat_def no_words_def
        lookups)
  moreover have "hasFlag keepcase_cat ''cat'' ''KEEPCASE'' None = Inr True"
    by (simp add: l hasFlag_loaded keepcase_cat_def no_words_def lookups)
  moreover have "check keepcase_cat ''cat'' = Inr True"
    by (simp add: check_def Let_def l t checkExact_loaded bindE_def keepcase_cat_def
        no_words_def lookups)
  moreover have "check keepcase_cat ''Cat'' = Inr False"
    by (simp add: check_def check_uncapitalized_def Let_def l c t checkExact_loaded
        hasFlag_loaded bindE_def keepcase_cat_def no_words_def lookups)
  ultimately show ?thesis by simp
qed

section \<open>The suggestion engine\<close>

subsection \<open>The candidates at edit distance 1\<close>

lemma set_deletes: "set (deletes (splits w)) = {take i w @ drop (Suc i) w | i. i < length w}"
  by (auto simp: deletes_def splits_def)

lemma set_transposes:
  "set (transposes (splits w)) =
     {take i w @ [w ! Suc i, w ! i] @ drop (i + 2) w | i.
        Suc i < length w \<and> w ! Suc i \<noteq> w ! i}"
proof -
  have "\<And>i. Suc i < length w \<Longrightarrow> w ! Suc i \<noteq> w ! i \<Longrightarrow>
          \<exists>x\<in>{0..<length w} \<inter> {x. Suc 0 < length w - x \<and> w ! Suc x \<noteq> w ! x}.
            take i w @ w ! Suc i # w ! i # drop (Suc (Suc i)) w =
            take x w @ w ! Suc x # w ! x # drop (Suc (Suc x)) w"
    by (rule_tac x = i in bexI) auto
  then show ?thesis
    by (auto simp: transposes_def splits_def)
qed

lemma set_replaces:
  "set (replaces alpha (splits w)) =
     {take i w @ [c] @ drop (Suc i) w | i c. i < length w \<and> c \<in> set alpha} \<union>
     {take i w @ [c] @ drop i w | i c. i < length w \<and> c \<in> set alpha}"
  by (auto simp: replaces_def splits_def)

text \<open>The candidates of a word, as a set: the deletions, the transpositions of two
  different neighbours, the substitutions, and the insertions before each code unit of
  the word.\<close>

lemma edits1_candidates:
  "set (edits1 alpha [w]) =
     {take i w @ drop (Suc i) w | i. i < length w} \<union>
     {take i w @ [w ! Suc i, w ! i] @ drop (i + 2) w | i.
        Suc i < length w \<and> w ! Suc i \<noteq> w ! i} \<union>
     {take i w @ [c] @ drop (Suc i) w | i c. i < length w \<and> c \<in> set alpha} \<union>
     {take i w @ [c] @ drop i w | i c. i < length w \<and> c \<in> set alpha}"
  by (simp add: edits1_def edits1_word_def Let_def inserts_def set_deletes set_transposes
      set_replaces Un_assoc)

text \<open>
  Claim C6 says that the candidates include the insertion of each letter at every
  position, the end of the word included. The loop that inserts keeps the guard
  \<^verbatim>\<open>if(s[1])\<close> of the loop that substitutes, so the split with nothing to its right is
  skipped: a word followed by a letter that does not occur in it is not a candidate.
\<close>

theorem edits1_end_insertion_missing:
  assumes c: "c \<notin> set w"
  shows "w @ [c] \<notin> set (edits1 alpha [w])"
proof
  assume "w @ [c] \<in> set (edits1 alpha [w])"
  then consider
      (del) i where "i < length w" "w @ [c] = take i w @ drop (Suc i) w"
    | (tra) i where "Suc i < length w"
        "w @ [c] = take i w @ [w ! Suc i, w ! i] @ drop (i + 2) w"
    | (rep) i d where "i < length w" "w @ [c] = take i w @ [d] @ drop (Suc i) w"
    | (ins) i d where "i < length w" "w @ [c] = take i w @ [d] @ drop i w"
    unfolding edits1_candidates by blast
  then show False
  proof cases
    case del
    from del(2) have "length (w @ [c]) = length (take i w @ drop (Suc i) w)" by simp
    with del(1) show False by simp
  next
    case tra
    from tra(2)
    have "length (w @ [c]) = length (take i w @ [w ! Suc i, w ! i] @ drop (i + 2) w)"
      by simp
    with tra(1) show False by simp
  next
    case rep
    from rep(2) have "length (w @ [c]) = length (take i w @ [d] @ drop (Suc i) w)" by simp
    with rep(1) show False by simp
  next
    case ins
    from ins(1) have ne: "drop i w \<noteq> []" by simp
    from ins(2) have "last (w @ [c]) = last (take i w @ [d] @ drop i w)" by simp
    with ne have "c = last (drop i w)" by simp
    with ne have "c \<in> set (drop i w)" using last_in_set by blast
    then have "c \<in> set w" by (rule in_set_dropD)
    with c show False by simp
  qed
qed

theorem edits1_end_insertion_missing_witness:
  "''cat'' \<notin> set (edits1 ''abcdefghijklmnopqrstuvwxyz'' [''ca''])"
  using edits1_end_insertion_missing [of "CHR ''t''" "''ca''" "''abcdefghijklmnopqrstuvwxyz''"]
  by simp

text \<open>The same letter before the first and before the second code unit is a candidate.\<close>

lemma edits1_inner_insertions:
  "''tca'' \<in> set (edits1 ''abcdefghijklmnopqrstuvwxyz'' [''ca'']) \<and>
   ''cta'' \<in> set (edits1 ''abcdefghijklmnopqrstuvwxyz'' [''ca''])"
proof -
  have 0: "\<exists>i c. ''tca'' = take i ''ca'' @ [c] @ drop i ''ca'' \<and> i < length ''ca'' \<and>
            c \<in> set ''abcdefghijklmnopqrstuvwxyz''"
    by (rule exI [of _ 0], rule exI [of _ "CHR ''t''"]) simp
  have 1: "\<exists>i c. ''cta'' = take i ''ca'' @ [c] @ drop i ''ca'' \<and> i < length ''ca'' \<and>
            c \<in> set ''abcdefghijklmnopqrstuvwxyz''"
    by (rule exI [of _ 1], rule exI [of _ "CHR ''t''"]) simp
  from 0 1 show ?thesis
    unfolding edits1_candidates by blast
qed

text \<open>A candidate is at most one code unit shorter than the word, and made of the code
  units of the word and of the alphabet.\<close>

lemma edits1_word_bounds:
  assumes "c \<in> set (edits1 alpha [w])"
  shows "length w \<le> Suc (length c) \<and> set c \<subseteq> set w \<union> set alpha"
proof -
  have t: "set (take i w) \<subseteq> set w \<union> set alpha" for i
    using set_take_subset [of i w] by blast
  have d: "set (drop i w) \<subseteq> set w \<union> set alpha" for i
    using set_drop_subset [of i w] by blast
  from assms consider
      (del) i where "i < length w" "c = take i w @ drop (Suc i) w"
    | (tra) i where "Suc i < length w" "c = take i w @ [w ! Suc i, w ! i] @ drop (i + 2) w"
    | (rep) i d where "i < length w" "d \<in> set alpha" "c = take i w @ [d] @ drop (Suc i) w"
    | (ins) i d where "i < length w" "d \<in> set alpha" "c = take i w @ [d] @ drop i w"
    unfolding edits1_candidates by blast
  then show ?thesis
  proof cases
    case del
    then show ?thesis using t [of i] d [of "Suc i"] by simp
  next
    case tra
    have "w ! Suc i \<in> set w" "w ! i \<in> set w"
      using tra(1) by simp_all
    then show ?thesis using tra t [of i] d [of "i + 2"] by simp
  next
    case rep
    then show ?thesis using t [of i] d [of "Suc i"] by simp
  next
    case ins
    then show ?thesis using t [of i] d [of i] by simp
  qed
qed

lemma edits1_member:
  "c \<in> set (edits1 alpha ws) \<Longrightarrow> \<exists>w \<in> set ws. c \<in> set (edits1 alpha [w])"
  by (auto simp: edits1_def)

subsection \<open>The pipeline never completes\<close>

lemma trim_no_space:
  assumes ne: "c \<noteq> []" and ns: "\<forall>x \<in> set c. \<not> is_space x"
  shows "trim c \<noteq> []"
proof -
  from ne ns have 1: "dropWhile is_space c = c"
    by (simp add: dropWhile_eq_self_iff)
  from ne ns have 2: "dropWhile is_space (rev c) = rev c"
    by (simp add: dropWhile_eq_self_iff hd_rev)
  from ne show ?thesis by (simp add: trim_def 1 2)
qed

lemma known_total:
  "loaded s \<Longrightarrow> \<forall>w \<in> set ws. trim w \<noteq> [] \<Longrightarrow> \<exists>k. known s ws = Inr k"
proof (induction ws)
  case Nil
  then show ?case by simp
next
  case (Cons w ws)
  from Cons.prems obtain b where "check s w = Inr b"
    using check_nonblank_total [of s w] by auto
  moreover from Cons obtain k where "known s ws = Inr k" by auto
  ultimately show ?case by (simp add: bindE_def)
qed

text \<open>Whatever the engine, the word and the limit, \<^verbatim>\<open>correct\<close> raises.\<close>

lemma correct_raises: "\<exists>e. correct s w lim = Inl e"
  by (auto simp: correct_def Let_def bindE_def split: sum.splits)

text \<open>For a word of three code units or more without white space every candidate at
  distance 1 and 2 has a code unit that is not white space, both calls of \<^verbatim>\<open>known\<close>
  return, and the exception is the ReferenceError of the loop header.\<close>

lemma correct_ReferenceError:
  assumes l: "loaded s" and len: "3 \<le> length w"
    and ns: "\<forall>x \<in> set w \<union> set (alphabet s). \<not> is_space x"
  shows "correct s w lim = Inl ReferenceError"
proof -
  let ?ed1 = "edits1 (alphabet s) [w]"
  let ?ed2 = "edits1 (alphabet s) ?ed1"
  have b1: "2 \<le> length c \<and> (\<forall>x \<in> set c. \<not> is_space x)" if "c \<in> set ?ed1" for c
  proof -
    from edits1_word_bounds [OF that]
    have "length w \<le> Suc (length c)" and "set c \<subseteq> set w \<union> set (alphabet s)"
      by simp_all
    with len ns show ?thesis by (simp add: subset_iff)
  qed
  have b2: "1 \<le> length c \<and> (\<forall>x \<in> set c. \<not> is_space x)" if "c \<in> set ?ed2" for c
  proof -
    from edits1_member [OF that] obtain v
      where v: "v \<in> set ?ed1" "c \<in> set (edits1 (alphabet s) [v])"
      by blast
    from edits1_word_bounds [OF v(2)]
    have "length v \<le> Suc (length c)" and "set c \<subseteq> set v \<union> set (alphabet s)"
      by simp_all
    moreover from b1 [OF v(1)] have "2 \<le> length v" and "\<forall>x \<in> set v. \<not> is_space x"
      by simp_all
    ultimately show ?thesis using ns by (simp add: subset_iff) blast
  qed
  have "\<forall>c \<in> set ?ed1. trim c \<noteq> []"
  proof
    fix c assume "c \<in> set ?ed1"
    from b1 [OF this] have "c \<noteq> []" and "\<forall>x \<in> set c. \<not> is_space x" by auto
    then show "trim c \<noteq> []" by (rule trim_no_space)
  qed
  from known_total [OF l this] obtain k1 where k1: "known s ?ed1 = Inr k1" by blast
  have "\<forall>c \<in> set ?ed2. trim c \<noteq> []"
  proof
    fix c assume "c \<in> set ?ed2"
    from b2 [OF this] have "c \<noteq> []" and "\<forall>x \<in> set c. \<not> is_space x" by auto
    then show "trim c \<noteq> []" by (rule trim_no_space)
  qed
  from known_total [OF l this] obtain k2 where k2: "known s ?ed2 = Inr k2" by blast
  show ?thesis
    by (simp add: correct_def Let_def k1 k2 bindE_def)
qed

subsection \<open>The paths through \<^verbatim>\<open>suggest\<close>\<close>

lemma suggest_hit:
  "loaded s \<Longrightarrow> memo_hit s w (effective_limit l) = Some out \<Longrightarrow> suggest s w l = (Inr out, s)"
  by (simp add: suggest_def)

lemma suggest_check_raises:
  "loaded s \<Longrightarrow> memo_hit s w (effective_limit l) = None \<Longrightarrow> check s w = Inl e \<Longrightarrow>
   suggest s w l = (Inl e, s)"
  by (simp add: suggest_def)

lemma suggest_valid:
  "loaded s \<Longrightarrow> memo_hit s w (effective_limit l) = None \<Longrightarrow> check s w = Inr True \<Longrightarrow>
   suggest s w l = (Inr [], s)"
  by (simp add: suggest_def)

lemma suggest_replacement_raises:
  "loaded s \<Longrightarrow> memo_hit s w (effective_limit l) = None \<Longrightarrow> check s w = Inr False \<Longrightarrow>
   replacements s w (replacementTable s) = Inl e \<Longrightarrow> suggest s w l = (Inl e, s)"
  by (simp add: suggest_def)

lemma suggest_replacement:
  "loaded s \<Longrightarrow> memo_hit s w (effective_limit l) = None \<Longrightarrow> check s w = Inr False \<Longrightarrow>
   replacements s w (replacementTable s) = Inr (Some c) \<Longrightarrow> suggest s w l = (Inr [c], s)"
  by (simp add: suggest_def)

lemma suggest_pipeline:
  "loaded s \<Longrightarrow> memo_hit s w (effective_limit l) = None \<Longrightarrow> check s w = Inr False \<Longrightarrow>
   replacements s w (replacementTable s) = Inr None \<Longrightarrow>
   suggest s w l =
     (case correct (s\<lparr>alphabet := ''abcdefghijklmnopqrstuvwxyz''\<rparr>) w (effective_limit l) of
        Inl e \<Rightarrow> (Inl e, s\<lparr>alphabet := ''abcdefghijklmnopqrstuvwxyz''\<rparr>)
      | Inr (sugg, lim') \<Rightarrow>
          (Inr sugg,
           s\<lparr>alphabet := ''abcdefghijklmnopqrstuvwxyz'',
             memoized := (memoized s)(w \<mapsto> \<lparr>suggestions = sugg, limit = lim'\<rparr>)\<rparr>))"
  by (simp add: suggest_def Let_def split: sum.splits prod.splits)

text \<open>
  Claim C3 says that for a misspelled word that misses the replacement table
  \<^verbatim>\<open>suggest\<close> returns at most \<^verbatim>\<open>limit\<close> candidates in ranked order. On that path
  \<^verbatim>\<open>suggest\<close> calls \<^verbatim>\<open>correct\<close>, which raises in every case: the call returns no list,
  and for a word of three code units or more without white space the exception is the
  ReferenceError of the undeclared \<^verbatim>\<open>sortedcorrections\<close>.
\<close>

theorem suggest_pipeline_raises:
  assumes "loaded s" and "memo_hit s w (effective_limit l) = None"
    and "check s w = Inr False" and "replacements s w (replacementTable s) = Inr None"
  shows "(\<exists>e. suggest s w l = (Inl e, s\<lparr>alphabet := ''abcdefghijklmnopqrstuvwxyz''\<rparr>)) \<and>
         (3 \<le> length w \<and> (\<forall>x \<in> set w. \<not> is_space x) \<longrightarrow>
            suggest s w l =
              (Inl ReferenceError, s\<lparr>alphabet := ''abcdefghijklmnopqrstuvwxyz''\<rparr>))"
proof (intro conjI impI)
  let ?s1 = "s\<lparr>alphabet := ''abcdefghijklmnopqrstuvwxyz''\<rparr>"
  obtain e where "correct ?s1 w (effective_limit l) = Inl e"
    using correct_raises by blast
  with suggest_pipeline [OF assms] show "\<exists>e. suggest s w l = (Inl e, ?s1)"
    by simp
next
  let ?s1 = "s\<lparr>alphabet := ''abcdefghijklmnopqrstuvwxyz''\<rparr>"
  assume a: "3 \<le> length w \<and> (\<forall>x \<in> set w. \<not> is_space x)"
  have "\<forall>x \<in> set ''abcdefghijklmnopqrstuvwxyz''. \<not> is_space x"
    by (simp add: is_space_def)
  with a assms(1) have "correct ?s1 w (effective_limit l) = Inl ReferenceError"
    by (intro correct_ReferenceError) auto
  with suggest_pipeline [OF assms] show "suggest s w l = (Inl ReferenceError, ?s1)"
    by simp
qed

theorem suggest_pipeline_raises_witness:
  "check spelling ''speling'' = Inr False \<and>
   suggest spelling ''speling'' (Some 5) =
     (Inl ReferenceError, spelling\<lparr>alphabet := ''abcdefghijklmnopqrstuvwxyz''\<rparr>)"
proof -
  have l: "loaded spelling"
    by (simp add: spelling_def no_words_def)
  have m: "memo_hit spelling ''speling'' (effective_limit (Some 5)) = None"
    by (simp add: memo_hit_def spelling_def no_words_def)
  have c: "check spelling ''speling'' = Inr False"
    by (simp add: check_def check_uncapitalized_def Let_def l checkExact_loaded lookups bindE_def
        trim_def is_space_def toUpperCase_def toLowerCase_def upper_char_def lower_char_def
        lower_letters_def upper_letters_def spelling_def no_words_def)
  have r: "replacements spelling ''speling'' (replacementTable spelling) = Inr None"
    by (simp add: spelling_def no_words_def)
  from suggest_pipeline_raises [OF l m c r] c show ?thesis
    by (simp add: is_space_def)
qed

subsection \<open>The engine after a call\<close>

lemma hasFlag_alphabet: "hasFlag (s\<lparr>alphabet := a\<rparr>) w f g = hasFlag s w f g"
  by (cases g) (simp_all add: hasFlag_def)

lemma checkExact_codes_alphabet:
  "checkExact_codes (s\<lparr>alphabet := a\<rparr>) w cs = checkExact_codes s w cs"
  by (induction cs) (simp_all add: hasFlag_alphabet cong del: if_weak_cong)

lemma checkExact_alphabet: "checkExact (s\<lparr>alphabet := a\<rparr>) w = checkExact s w"
  by (auto simp: checkExact_def checkExact_codes_alphabet split: looked.splits entry.splits)

lemma check_allcaps_alphabet: "check_allcaps (s\<lparr>alphabet := a\<rparr>) w = check_allcaps s w"
  by (simp add: check_allcaps_def Let_def checkExact_alphabet hasFlag_alphabet
      cong del: if_weak_cong)

lemma check_uncapitalized_alphabet:
  "check_uncapitalized (s\<lparr>alphabet := a\<rparr>) w = check_uncapitalized s w"
  by (cases w)
    (simp_all add: check_uncapitalized_def Let_def checkExact_alphabet hasFlag_alphabet
      cong del: if_weak_cong)

lemma check_alphabet: "check (s\<lparr>alphabet := a\<rparr>) w = check s w"
  by (simp add: check_def Let_def check_allcaps_alphabet check_uncapitalized_alphabet
      checkExact_alphabet cong del: if_weak_cong)

lemma replacements_alphabet:
  "replacements (s\<lparr>alphabet := a\<rparr>) w rt = replacements s w rt"
  by (induction rt) (simp_all add: check_alphabet cong del: if_weak_cong)

lemma memo_hit_alphabet: "memo_hit (s\<lparr>alphabet := a\<rparr>) w l = memo_hit s w l"
  by (simp add: memo_hit_def)

text \<open>The only write of \<^verbatim>\<open>suggest\<close> to the engine, on every path, is the alphabet: the
  assignment to \<^verbatim>\<open>this.memoized[word]\<close> evaluates \<^verbatim>\<open>correct(word)\<close> first.\<close>

lemma suggest_engine_after:
  assumes "suggest s w l = (r, s')"
  shows "s' = s \<or> s' = s\<lparr>alphabet := ''abcdefghijklmnopqrstuvwxyz''\<rparr>"
proof -
  have "correct (s\<lparr>alphabet := ''abcdefghijklmnopqrstuvwxyz''\<rparr>) w (effective_limit l) \<noteq> Inr x"
    for x
    using correct_raises [of "s\<lparr>alphabet := ''abcdefghijklmnopqrstuvwxyz''\<rparr>" w "effective_limit l"]
    by auto
  with assms show ?thesis
    by (auto simp: suggest_def Let_def
        split: if_splits option.splits sum.splits bool.splits prod.splits)
qed

text \<open>
  Claim C10: the return for a valid word and the return through the replacement table
  leave the memoized entries as they are, and an entry for the word is written only
  when \<^verbatim>\<open>correct\<close> has returned, with what it returned.
\<close>

theorem suggest_cache_frame:
  "suggest s w l = (r, s') \<Longrightarrow>
     (memoized s' = memoized s \<or>
      (\<exists>sugg lim'.
         correct (s\<lparr>alphabet := ''abcdefghijklmnopqrstuvwxyz''\<rparr>) w (effective_limit l)
           = Inr (sugg, lim') \<and>
         r = Inr sugg \<and>
         memoized s' = (memoized s)(w \<mapsto> \<lparr>suggestions = sugg, limit = lim'\<rparr>)))
     \<and> (loaded s \<and> memo_hit s w (effective_limit l) = None \<and> check s w = Inr True
          \<longrightarrow> r = Inr [] \<and> s' = s)
     \<and> (\<forall>c. loaded s \<and> memo_hit s w (effective_limit l) = None \<and> check s w = Inr False \<and>
              replacements s w (replacementTable s) = Inr (Some c)
          \<longrightarrow> r = Inr [c] \<and> s' = s)"
  by (auto simp: suggest_def Let_def
      split: if_splits option.splits sum.splits bool.splits prod.splits)

theorem suggest_cache_frame_witness:
  "suggest cached ''the'' None = (Inr [], cached) \<and>
   suggest cached ''fone'' (Some 5) = (Inr [''phone''], cached) \<and>
   memoized (snd (suggest cached ''the'' None)) = memoized cached \<and>
   memoized (snd (suggest cached ''fone'' (Some 5))) = memoized cached"
proof -
  have l: "loaded cached"
    by (simp add: cached_def no_words_def)
  have m: "memo_hit cached ''the'' (effective_limit None) = None"
    "memo_hit cached ''fone'' (effective_limit (Some 5)) = None"
    by (simp_all add: memo_hit_def cached_def no_words_def)
  have t: "trim ''the'' = ''the''" "trim ''fone'' = ''fone''" "trim ''phone'' = ''phone''"
    by (simp_all add: trim_def is_space_def)
  have u: "toUpperCase ''fone'' = ''FONE''" "toLowerCase ''f'' = ''f''"
    by (simp_all add: toUpperCase_def toLowerCase_def upper_char_def lower_char_def
        lower_letters_def upper_letters_def)
  have c: "check cached ''the'' = Inr True" "check cached ''phone'' = Inr True"
    "check cached ''fone'' = Inr False"
    by (simp_all add: check_def check_uncapitalized_def Let_def l t u checkExact_loaded lookups bindE_def
        cached_def no_words_def)
  have r: "replacements cached ''fone'' (replacementTable cached) = Inr (Some ''phone'')"
    using c(2) by (simp add: cached_def no_words_def replace_str_def Let_def bindE_def)
  obtain r1 s1 where 1: "suggest cached ''the'' None = (r1, s1)"
    by (cases "suggest cached ''the'' None")
  obtain r2 s2 where 2: "suggest cached ''fone'' (Some 5) = (r2, s2)"
    by (cases "suggest cached ''fone'' (Some 5)")
  from suggest_cache_frame [OF 1] l m(1) c(1) have "r1 = Inr [] \<and> s1 = cached" by simp
  moreover from suggest_cache_frame [OF 2] l m(2) c(3) r have "r2 = Inr [''phone''] \<and> s2 = cached"
    by simp
  ultimately show ?thesis using 1 2 by simp
qed

text \<open>A second call of \<^verbatim>\<open>suggest\<close> with the same word and limit takes the path of the
  first, and leaves the engine as the first call left it.\<close>

lemma suggest_again:
  assumes l: "loaded s" and 1: "suggest s w n = (r, s')"
  shows "suggest s' w n = (r, s')"
proof (cases "memo_hit s w (effective_limit n)")
  case (Some out)
  with l 1 show ?thesis by (simp add: suggest_hit)
next
  case miss: None
  show ?thesis
  proof (cases "check s w")
    case (Inl e)
    with l miss 1 show ?thesis by (simp add: suggest_check_raises)
  next
    case chk: (Inr ok)
    show ?thesis
    proof (cases ok)
      case True
      with l miss chk 1 show ?thesis by (simp add: suggest_valid)
    next
      case False
      with chk have bad: "check s w = Inr False" by simp
      show ?thesis
      proof (cases "replacements s w (replacementTable s)")
        case (Inl e)
        with l miss bad 1 show ?thesis by (simp add: suggest_replacement_raises)
      next
        case rep: (Inr c)
        show ?thesis
        proof (cases c)
          case (Some cw)
          with l miss bad rep 1 show ?thesis by (simp add: suggest_replacement)
        next
          case None
          with rep have norep: "replacements s w (replacementTable s) = Inr None" by simp
          let ?s1 = "s\<lparr>alphabet := ''abcdefghijklmnopqrstuvwxyz''\<rparr>"
          obtain e where e: "correct ?s1 w (effective_limit n) = Inl e"
            using correct_raises by blast
          have r: "r = Inl e" and s': "s' = ?s1"
            using 1 suggest_pipeline [OF l miss bad norep] e by simp_all
          have "suggest ?s1 w n = (Inl e, ?s1)"
            using suggest_pipeline [of ?s1 w n] l miss bad norep e
            by (simp add: memo_hit_alphabet check_alphabet replacements_alphabet)
          then show ?thesis by (simp add: r s')
        qed
      qed
    qed
  qed
qed

text \<open>The memoized list is returned, cut to the limit, exactly when the limit is at most
  the memoized limit or the memoized list is shorter than the memoized limit.\<close>

lemma memo_hit_iff:
  "memo_hit s w lim = Some out \<longleftrightarrow>
     (\<exists>m. memoized s w = Some m \<and>
          (lim \<le> limit m \<or> int (length (suggestions m)) < limit m) \<and>
          out = slice0 (suggestions m) lim)"
  by (auto simp: memo_hit_def split: option.splits)

text \<open>
  Claim C9 says that two consecutive calls of \<^verbatim>\<open>suggest\<close> with the same word and limit
  return identical ordered output, the memoized entry not altering the result. For a
  misspelled word that misses the replacement table the first call raises before
  \<^verbatim>\<open>this.memoized[word]\<close> is assigned, so the second call finds nothing memoized for the
  word, runs the same pipeline and raises the same exception: neither call returns any
  output.
\<close>

theorem suggest_twice_raises:
  assumes "loaded s" and "memo_hit s w (effective_limit n) = None"
    and "check s w = Inr False" and "replacements s w (replacementTable s) = Inr None"
  shows "(\<exists>e. fst (suggest s w n) = Inl e \<and>
              fst (suggest (snd (suggest s w n)) w n) = Inl e) \<and>
         memoized (snd (suggest s w n)) = memoized s \<and>
         memo_hit (snd (suggest s w n)) w (effective_limit n) = None"
proof -
  let ?s1 = "s\<lparr>alphabet := ''abcdefghijklmnopqrstuvwxyz''\<rparr>"
  obtain e where "correct ?s1 w (effective_limit n) = Inl e"
    using correct_raises by blast
  with suggest_pipeline [OF assms] have 1: "suggest s w n = (Inl e, ?s1)"
    by simp
  from suggest_again [OF assms(1) 1] have 2: "suggest ?s1 w n = (Inl e, ?s1)" .
  from 1 2 assms(2) show ?thesis
    by (simp add: memo_hit_alphabet)
qed

theorem suggest_twice_raises_witness:
  "fst (suggest spelling ''speling'' (Some 5)) = Inl ReferenceError \<and>
   fst (suggest (snd (suggest spelling ''speling'' (Some 5))) ''speling'' (Some 5)) =
     Inl ReferenceError \<and>
   memoized (snd (suggest spelling ''speling'' (Some 5))) ''speling'' = None"
proof -
  have l: "loaded spelling"
    by (simp add: spelling_def no_words_def)
  have m: "memo_hit spelling ''speling'' (effective_limit (Some 5)) = None"
    by (simp add: memo_hit_def spelling_def no_words_def)
  have c: "check spelling ''speling'' = Inr False"
    by (simp add: check_def check_uncapitalized_def Let_def l checkExact_loaded lookups bindE_def
        trim_def is_space_def toUpperCase_def toLowerCase_def upper_char_def lower_char_def
        lower_letters_def upper_letters_def spelling_def no_words_def)
  have r: "replacements spelling ''speling'' (replacementTable spelling) = Inr None"
    by (simp add: spelling_def no_words_def)
  let ?s1 = "spelling\<lparr>alphabet := ''abcdefghijklmnopqrstuvwxyz''\<rparr>"
  have "correct ?s1 ''speling'' (effective_limit (Some 5)) = Inl ReferenceError"
    by (rule correct_ReferenceError) (simp_all add: l is_space_def)
  with suggest_pipeline [OF l m c r]
  have 1: "suggest spelling ''speling'' (Some 5) = (Inl ReferenceError, ?s1)"
    by simp
  from suggest_twice_raises [OF l m c r] 1 show ?thesis
    by (auto simp: spelling_def no_words_def)
qed

text \<open>With an entry that an engine was restored with, both calls return the same list.\<close>

lemma suggest_again_cached:
  "suggest cached ''teh'' (Some 2) = (Inr [''the'', ''ten''], cached)"
  "suggest (snd (suggest cached ''teh'' (Some 2))) ''teh'' (Some 2) =
     (Inr [''the'', ''ten''], cached)"
  "memo_hit cached ''teh'' 7 = Some [''the'', ''ten'', ''tea'']"
  by (simp_all add: suggest_def memo_hit_def effective_limit_def slice0_def cached_def
      no_words_def)

end
